theory Spec2Isabelle
  imports Main "HOL-Library.Multiset"
begin

section \<open>Recipe documents and request bodies\<close>

text \<open>
  The server keeps one collection of recipe documents in a document store and answers four
  requests over it: list, create, update and reorder. The schema of \<^verbatim>\<open>server.js\<close>
  (\<^verbatim>\<open>recipeSchema\<close>) gives the fields of a stored document. An \<^verbatim>\<open>ObjectId\<close> is
  written as its 24 lower-case hexadecimal digits. A number is an integer.
\<close>

type_synonym oid = string

record recipe =
  recipe_id :: oid
  name :: string
  cuisine :: string
  instructions :: string
  ingredients :: "string list"
  image_url :: string
  prepTimeMinutes :: int
  cookTimeMinutes :: int
  servings :: int
  tags :: "string list"
  position :: int

text \<open>
  A request body (\<^verbatim>\<open>req.body\<close> after \<^verbatim>\<open>express.json()\<close>) is modelled at the types of
  the schema: every field is either absent (\<open>None\<close>, JavaScript's \<^verbatim>\<open>undefined\<close>) or holds a
  value of the type the schema declares for it. Values of another JSON type, which the
  libraries coerce, are outside the model.
\<close>

record body =
  b_name :: "string option"
  b_cuisine :: "string option"
  b_instructions :: "string option"
  b_ingredients :: "string list option"
  b_image :: "string option"
  b_prepTimeMinutes :: "int option"
  b_cookTimeMinutes :: "int option"
  b_servings :: "int option"
  b_tags :: "string list option"
  b_position :: "int option"

section \<open>The validation layer\<close>

text \<open>
  The primitives of \<^verbatim>\<open>express-validator\<close> that the two validated routes use. A sanitizer
  and a standard validator see the string form of the field, which is empty for a missing
  field. \<^verbatim>\<open>trim()\<close> strips white space (the characters of the regular expression class
  \<^verbatim>\<open>\s\<close> below code 256) at both ends, \<^verbatim>\<open>notEmpty()\<close> asks for a string of length above
  zero and \<^verbatim>\<open>isArray({ min: 1 })\<close> for an array of at least one element.
  \<^verbatim>\<open>isInt({ min: 1 })\<close> reads the string form of the number: it asks for an optional
  sign followed by digits only, and then for a value of at least one. JavaScript prints an
  integer in digits as long as its size is below \<open>10 ^ 21\<close>, and with an exponent from
  there on (\<^verbatim>\<open>1e+21\<close>), which the validator rejects. \<^verbatim>\<open>isURL()\<close> is the library's URL
  recogniser; it is a parameter \<open>isURL\<close> of everything below.
\<close>

definition toString :: "string option \<Rightarrow> string" where
  "toString v = (case v of None \<Rightarrow> [] | Some s \<Rightarrow> s)"

definition is_space :: "char \<Rightarrow> bool" where
  "is_space c =
     (c \<in> set [CHR 0x09, CHR 0x0A, CHR 0x0B, CHR 0x0C, CHR 0x0D, CHR 0x20, CHR 0xA0])"

definition trim :: "string \<Rightarrow> string" where
  "trim s = rev (dropWhile is_space (rev (dropWhile is_space s)))"

definition notEmpty :: "string \<Rightarrow> bool" where
  "notEmpty s = (s \<noteq> [])"

definition isArray :: "nat \<Rightarrow> 'a list option \<Rightarrow> bool" where
  "isArray n v = (case v of None \<Rightarrow> False | Some xs \<Rightarrow> n \<le> length xs)"

definition plain_decimal :: "int \<Rightarrow> bool" where
  "plain_decimal k = (\<bar>k\<bar> < 10 ^ 21)"

definition isInt :: "int \<Rightarrow> int option \<Rightarrow> bool" where
  "isInt m v = (case v of None \<Rightarrow> False | Some k \<Rightarrow> plain_decimal k \<and> m \<le> k)"

text \<open>
  An entry of \<^verbatim>\<open>errors.array()\<close>: the field it is about and the text given to
  \<^verbatim>\<open>withMessage\<close>.
\<close>

datatype violation = Violation (path: string) (msg: string)

definition withMessage :: "string \<Rightarrow> string \<Rightarrow> bool \<Rightarrow> violation list" where
  "withMessage field m ok = (if ok then [] else [Violation field m])"

text \<open>
  The eight validation chains of \<^verbatim>\<open>POST /api/recipes\<close> and \<^verbatim>\<open>PUT /api/recipes/:id\<close>, in
  the order of the source. A chain reads its field of the body, writes the sanitized value
  back (the chains with \<^verbatim>\<open>trim()\<close>) and reports at most one error.
\<close>

type_synonym chain = "body \<Rightarrow> body \<times> violation list"

definition chain_name :: chain where
  "chain_name b = (let v = trim (toString (b_name b)) in
     (b\<lparr>b_name := Some v\<rparr>, withMessage ''name'' ''Recipe name is required'' (notEmpty v)))"

definition chain_cuisine :: chain where
  "chain_cuisine b = (let v = trim (toString (b_cuisine b)) in
     (b\<lparr>b_cuisine := Some v\<rparr>, withMessage ''cuisine'' ''Cuisine is required'' (notEmpty v)))"

definition chain_instructions :: chain where
  "chain_instructions b = (let v = trim (toString (b_instructions b)) in
     (b\<lparr>b_instructions := Some v\<rparr>,
      withMessage ''instructions'' ''Instructions are required'' (notEmpty v)))"

definition chain_ingredients :: chain where
  "chain_ingredients b =
     (b, withMessage ''ingredients'' ''At least one ingredient is required''
           (isArray 1 (b_ingredients b)))"

definition chain_image :: "(string \<Rightarrow> bool) \<Rightarrow> chain" where
  "chain_image isURL b = (let v = trim (toString (b_image b)) in
     (b\<lparr>b_image := Some v\<rparr>, withMessage ''image'' ''Valid image URL is required'' (isURL v)))"

definition chain_prepTimeMinutes :: chain where
  "chain_prepTimeMinutes b =
     (b, withMessage ''prepTimeMinutes'' ''Valid prep time is required''
           (isInt 1 (b_prepTimeMinutes b)))"

definition chain_cookTimeMinutes :: chain where
  "chain_cookTimeMinutes b =
     (b, withMessage ''cookTimeMinutes'' ''Valid cook time is required''
           (isInt 1 (b_cookTimeMinutes b)))"

definition chain_servings :: chain where
  "chain_servings b =
     (b, withMessage ''servings'' ''Valid servings number is required''
           (isInt 1 (b_servings b)))"

definition validators :: "(string \<Rightarrow> bool) \<Rightarrow> chain list" where
  "validators isURL =
     [chain_name, chain_cuisine, chain_instructions, chain_ingredients, chain_image isURL,
      chain_prepTimeMinutes, chain_cookTimeMinutes, chain_servings]"

text \<open>
  The chains run as middleware, one after the other, on the same request: each sees the
  body its predecessors left and appends to the errors found so far.
  \<^verbatim>\<open>validationResult(req)\<close> then reads these errors.
\<close>

fun run_chains :: "chain list \<Rightarrow> body \<Rightarrow> body \<times> violation list" where
  "run_chains [] b = (b, [])"
| "run_chains (c # cs) b =
     (case c b of (b1, e1) \<Rightarrow> (case run_chains cs b1 of (b2, e2) \<Rightarrow> (b2, e1 @ e2)))"

definition validationResult :: "(string \<Rightarrow> bool) \<Rightarrow> body \<Rightarrow> violation list" where
  "validationResult isURL b = snd (run_chains (validators isURL) b)"

definition sanitized :: "(string \<Rightarrow> bool) \<Rightarrow> body \<Rightarrow> body" where
  "sanitized isURL b = fst (run_chains (validators isURL) b)"

section \<open>The recipe store\<close>

text \<open>
  The collection behind the \<^verbatim>\<open>Recipe\<close> model is the list of its documents in the order
  of insertion. A call of the model can fail in the store (no connection, for instance);
  whether it does is an input of the call, \<open>fault\<close>, carrying the message of the failure.
\<close>

type_synonym store = "recipe list"

datatype err =
  StorageError string
| CastError string
| ValidationError "string list"
| BSONError string

text \<open>
  \<^verbatim>\<open>new mongoose.Types.ObjectId(id)\<close>, and the cast that Mongoose applies to the
  \<^verbatim>\<open>_id\<close> of a filter: a string of 24 hexadecimal digits denotes an identifier, any other
  string makes the cast throw. This is the constructor of the current driver; before
  version 5 of the BSON library a string of 12 characters was taken as well.
\<close>

definition is_hex :: "char \<Rightarrow> bool" where
  "is_hex c = (c \<in> set ''0123456789abcdefABCDEF'')"

definition hex_lower :: "char \<Rightarrow> char" where
  "hex_lower c = (case map_of (zip ''ABCDEF'' ''abcdef'') c of Some d \<Rightarrow> d | None \<Rightarrow> c)"

definition castObjectId :: "string \<Rightarrow> oid option" where
  "castObjectId s =
     (if length s = 24 \<and> list_all is_hex s then Some (map hex_lower s) else None)"

text \<open>
  \<^verbatim>\<open>Recipe.find().sort({ position: 1 })\<close>: all documents, ascending by position. The
  query asks for no order among documents of equal position and the store promises none:
  what it may return is an \<open>ascending_listing\<close> of the collection. \<open>Recipe_find_sort\<close>
  returns one of them, the one that keeps the order of the collection among equal
  positions.
\<close>

definition ascending_listing :: "store \<Rightarrow> recipe list \<Rightarrow> bool" where
  "ascending_listing st rs = (mset rs = mset st \<and> sorted (map position rs))"

definition Recipe_find_sort :: "string option \<Rightarrow> store \<Rightarrow> err + recipe list" where
  "Recipe_find_sort fault st =
     (case fault of
        Some m \<Rightarrow> Inl (StorageError m)
      | None \<Rightarrow> Inr (sort_key position st))"

text \<open>
  \<^verbatim>\<open>Recipe.create(req.body)\<close>: the schema's \<^verbatim>\<open>required\<close> validators reject a missing
  string or number and an empty string. A missing array becomes the empty array, which
  \<^verbatim>\<open>required\<close> accepts; this holds for \<^verbatim>\<open>ingredients\<close> as for \<^verbatim>\<open>tags\<close>.
  \<^verbatim>\<open>position\<close> defaults to \<^verbatim>\<open>Date.now()\<close>, the reading \<open>now\<close> of the clock. The
  identifier \<open>newId\<close> is the one the driver generates for the document.
\<close>

definition required_failures :: "body \<Rightarrow> string list" where
  "required_failures b =
     (if toString (b_name b) = [] then [''name''] else []) @
     (if toString (b_cuisine b) = [] then [''cuisine''] else []) @
     (if toString (b_instructions b) = [] then [''instructions''] else []) @
     (if toString (b_image b) = [] then [''image''] else []) @
     (if b_prepTimeMinutes b = None then [''prepTimeMinutes''] else []) @
     (if b_cookTimeMinutes b = None then [''cookTimeMinutes''] else []) @
     (if b_servings b = None then [''servings''] else [])"

definition new_Recipe :: "int \<Rightarrow> oid \<Rightarrow> body \<Rightarrow> recipe" where
  "new_Recipe now newId b =
     \<lparr>recipe_id = newId,
      name = toString (b_name b),
      cuisine = toString (b_cuisine b),
      instructions = toString (b_instructions b),
      ingredients = (case b_ingredients b of Some xs \<Rightarrow> xs | None \<Rightarrow> []),
      image_url = toString (b_image b),
      prepTimeMinutes = (case b_prepTimeMinutes b of Some k \<Rightarrow> k | None \<Rightarrow> 0),
      cookTimeMinutes = (case b_cookTimeMinutes b of Some k \<Rightarrow> k | None \<Rightarrow> 0),
      servings = (case b_servings b of Some k \<Rightarrow> k | None \<Rightarrow> 0),
      tags = (case b_tags b of Some ts \<Rightarrow> ts | None \<Rightarrow> []),
      position = (case b_position b of Some p \<Rightarrow> p | None \<Rightarrow> now)\<rparr>"

definition Recipe_create ::
  "string option \<Rightarrow> int \<Rightarrow> oid \<Rightarrow> body \<Rightarrow> store \<Rightarrow> err + recipe \<times> store" where
  "Recipe_create fault now newId b st =
     (if required_failures b \<noteq> [] then Inl (ValidationError (required_failures b))
      else
        (case fault of
           Some m \<Rightarrow> Inl (StorageError m)
         | None \<Rightarrow> Inr (new_Recipe now newId b, st @ [new_Recipe now newId b])))"

text \<open>An \<^verbatim>\<open>updateOne\<close>: the first document whose \<^verbatim>\<open>_id\<close> is \<open>i\<close> is changed by \<open>f\<close>;
  with no such document nothing happens.\<close>

fun updateOne :: "oid \<Rightarrow> (recipe \<Rightarrow> recipe) \<Rightarrow> store \<Rightarrow> store" where
  "updateOne i f [] = []"
| "updateOne i f (r # rs) = (if recipe_id r = i then f r # rs else r # updateOne i f rs)"

text \<open>
  \<^verbatim>\<open>Recipe.findByIdAndUpdate(id, req.body, { new: true, runValidators: true })\<close>: the
  fields present in the body are set, the others stay; the validators of the fields that
  are set run; the result is the updated document, or \<^verbatim>\<open>null\<close> (\<open>None\<close>) when no document
  has this identifier.
\<close>

definition update_failures :: "body \<Rightarrow> string list" where
  "update_failures b =
     (if b_name b = Some [] then [''name''] else []) @
     (if b_cuisine b = Some [] then [''cuisine''] else []) @
     (if b_instructions b = Some [] then [''instructions''] else []) @
     (if b_image b = Some [] then [''image''] else [])"

definition apply_update :: "body \<Rightarrow> recipe \<Rightarrow> recipe" where
  "apply_update b r =
     r\<lparr>name := (case b_name b of Some v \<Rightarrow> v | None \<Rightarrow> name r),
       cuisine := (case b_cuisine b of Some v \<Rightarrow> v | None \<Rightarrow> cuisine r),
       instructions := (case b_instructions b of Some v \<Rightarrow> v | None \<Rightarrow> instructions r),
       ingredients := (case b_ingredients b of Some v \<Rightarrow> v | None \<Rightarrow> ingredients r),
       image_url := (case b_image b of Some v \<Rightarrow> v | None \<Rightarrow> image_url r),
       prepTimeMinutes :=
         (case b_prepTimeMinutes b of Some v \<Rightarrow> v | None \<Rightarrow> prepTimeMinutes r),
       cookTimeMinutes :=
         (case b_cookTimeMinutes b of Some v \<Rightarrow> v | None \<Rightarrow> cookTimeMinutes r),
       servings := (case b_servings b of Some v \<Rightarrow> v | None \<Rightarrow> servings r),
       tags := (case b_tags b of Some v \<Rightarrow> v | None \<Rightarrow> tags r),
       position := (case b_position b of Some v \<Rightarrow> v | None \<Rightarrow> position r)\<rparr>"

definition Recipe_findByIdAndUpdate ::
  "string option \<Rightarrow> string \<Rightarrow> body \<Rightarrow> store \<Rightarrow> err + recipe option \<times> store" where
  "Recipe_findByIdAndUpdate fault ident b st =
     (case castObjectId ident of
        None \<Rightarrow> Inl (CastError ident)
      | Some i \<Rightarrow>
          if update_failures b \<noteq> [] then Inl (ValidationError (update_failures b))
          else
            (case fault of
               Some m \<Rightarrow> Inl (StorageError m)
             | None \<Rightarrow>
                 (case find (\<lambda>r. recipe_id r = i) st of
                    None \<Rightarrow> Inr (None, st)
                  | Some r \<Rightarrow>
                      Inr (Some (apply_update b r), updateOne i (apply_update b) st))))"

text \<open>
  \<^verbatim>\<open>Recipe.bulkWrite(bulkUpdates)\<close>. The operations are applied in order, each an
  \<^verbatim>\<open>updateOne\<close> that sets the position. A failure of the store, \<open>Some (k, m)\<close>, comes
  after \<open>k\<close> operations have been applied, and what they wrote stays.
\<close>

datatype 'i write_op = UpdateOne (filter_id: 'i) (set_position: int)

abbreviation set_pos :: "int \<Rightarrow> recipe \<Rightarrow> recipe" where
  "set_pos p \<equiv> (\<lambda>r. r\<lparr>position := p\<rparr>)"

definition apply_ops :: "oid write_op list \<Rightarrow> store \<Rightarrow> store" where
  "apply_ops ops st =
     foldl (\<lambda>s w. updateOne (filter_id w) (set_pos (set_position w)) s) st ops"

definition Recipe_bulkWrite ::
  "(nat \<times> string) option \<Rightarrow> oid write_op list \<Rightarrow> store \<Rightarrow> err option \<times> store" where
  "Recipe_bulkWrite fault ops st =
     (case fault of
        None \<Rightarrow> (None, apply_ops ops st)
      | Some (k, m) \<Rightarrow> (Some (StorageError m), apply_ops (take k ops) st))"

text \<open>In \<^verbatim>\<open>server.js\<close> the filters carry the strings of the request, and Mongoose casts
  them before anything is sent to the store: one string that is no identifier makes the
  whole call throw.\<close>

fun castBulkWrite :: "string write_op list \<Rightarrow> err + oid write_op list" where
  "castBulkWrite [] = Inr []"
| "castBulkWrite (w # ws) =
     (case castObjectId (filter_id w) of
        None \<Rightarrow> Inl (CastError (filter_id w))
      | Some i \<Rightarrow>
          (case castBulkWrite ws of
             Inl e \<Rightarrow> Inl e
           | Inr cs \<Rightarrow> Inr (UpdateOne i (set_position w) # cs)))"

definition Recipe_bulkWrite_strings ::
  "(nat \<times> string) option \<Rightarrow> string write_op list \<Rightarrow> store \<Rightarrow> err option \<times> store" where
  "Recipe_bulkWrite_strings fault ops st =
     (case castBulkWrite ops of
        Inl e \<Rightarrow> (Some e, st)
      | Inr cs \<Rightarrow> Recipe_bulkWrite fault cs st)"

section \<open>The request handlers\<close>

text \<open>A response is its status code and the JSON value sent: a list of documents, one
  document, \<^verbatim>\<open>{ errors }\<close>, \<^verbatim>\<open>{ message }\<close> or \<^verbatim>\<open>{ message, error }\<close>.\<close>

datatype content =
  Recipes "recipe list"
| Doc recipe
| Errors "violation list"
| Message string
| MessageError string err

datatype response = Response (status: nat) (content: content)

text \<open>\<^verbatim>\<open>GET /api/recipes\<close>, as \<^verbatim>\<open>server.js\<close> has it and as the two other versions of the
  server (\<^verbatim>\<open>part_000\<close>) have it.\<close>

definition list_handler :: "string option \<Rightarrow> store \<Rightarrow> response" where
  "list_handler fault st =
     (case Recipe_find_sort fault st of
        Inr recipes \<Rightarrow> Response 200 (Recipes recipes)
      | Inl e \<Rightarrow> Response 500 (Message ''Server error''))"

definition list_handler_v2 :: "string option \<Rightarrow> store \<Rightarrow> response" where
  "list_handler_v2 fault st =
     (case Recipe_find_sort fault st of
        Inr recipes \<Rightarrow> Response 200 (Recipes recipes)
      | Inl e \<Rightarrow> Response 500 (MessageError ''Failed to fetch recipes'' e))"

text \<open>\<^verbatim>\<open>POST /api/recipes\<close> of \<^verbatim>\<open>server.js\<close>.\<close>

definition create_handler ::
  "(string \<Rightarrow> bool) \<Rightarrow> string option \<Rightarrow> int \<Rightarrow> oid \<Rightarrow> body \<Rightarrow> store \<Rightarrow> response \<times> store"
  where
  "create_handler isURL fault now newId b st =
     (if validationResult isURL b \<noteq> []
      then (Response 400 (Errors (validationResult isURL b)), st)
      else
        (case Recipe_create fault now newId (sanitized isURL b) st of
           Inr (newRecipe, st') \<Rightarrow> (Response 201 (Doc newRecipe), st')
         | Inl e \<Rightarrow> (Response 500 (Message ''Server error''), st)))"

text \<open>\<^verbatim>\<open>PUT /api/recipes/:id\<close> of \<^verbatim>\<open>server.js\<close>; \<open>ident\<close> is \<^verbatim>\<open>req.params.id\<close>. (The
  other versions leave this route without validators and without a handler body.)\<close>

definition update_handler ::
  "(string \<Rightarrow> bool) \<Rightarrow> string option \<Rightarrow> string \<Rightarrow> body \<Rightarrow> store \<Rightarrow> response \<times> store"
  where
  "update_handler isURL fault ident b st =
     (if validationResult isURL b \<noteq> []
      then (Response 400 (Errors (validationResult isURL b)), st)
      else
        (case Recipe_findByIdAndUpdate fault ident (sanitized isURL b) st of
           Inr (None, st') \<Rightarrow> (Response 404 (Message ''Recipe not found''), st')
         | Inr (Some updatedRecipe, st') \<Rightarrow> (Response 200 (Doc updatedRecipe), st')
         | Inl e \<Rightarrow> (Response 500 (Message ''Server error''), st)))"

text \<open>
  \<^verbatim>\<open>POST /api/recipes/reorder\<close>. \<open>orderedIds\<close> is \<open>None\<close> when the field of the body is
  not an array. The operation for the identifier at index \<open>k\<close> sets the position \<open>k + 1\<close>.
\<close>

definition bulkUpdates :: "'i list \<Rightarrow> 'i write_op list" where
  "bulkUpdates orderedIds =
     map (\<lambda>(index, i). UpdateOne i (int index + 1)) (enumerate 0 orderedIds)"

definition reorder_handler ::
  "(nat \<times> string) option \<Rightarrow> string list option \<Rightarrow> store \<Rightarrow> response \<times> store" where
  "reorder_handler fault orderedIds st =
     (case orderedIds of
        None \<Rightarrow> (Response 400 (Message ''Invalid request format''), st)
      | Some ids \<Rightarrow>
          (case Recipe_bulkWrite_strings fault (bulkUpdates ids) st of
             (None, st') \<Rightarrow> (Response 200 (Message ''Recipes reordered successfully''), st')
           | (Some e, st') \<Rightarrow> (Response 500 (Message ''Server error''), st')))"

text \<open>
  The other versions build the operations with \<^verbatim>\<open>new mongoose.Types.ObjectId(id)\<close>,
  inside the \<^verbatim>\<open>try\<close>: the first string that is no identifier stops the \<^verbatim>\<open>map\<close>, and
  nothing is written.
\<close>

fun bulkUpdates_v2 :: "nat \<Rightarrow> string list \<Rightarrow> err + oid write_op list" where
  "bulkUpdates_v2 index [] = Inr []"
| "bulkUpdates_v2 index (s # ss) =
     (case castObjectId s of
        None \<Rightarrow> Inl (BSONError s)
      | Some i \<Rightarrow>
          (case bulkUpdates_v2 (Suc index) ss of
             Inl e \<Rightarrow> Inl e
           | Inr ops \<Rightarrow> Inr (UpdateOne i (int index + 1) # ops)))"

definition reorder_handler_v2 ::
  "(nat \<times> string) option \<Rightarrow> string list option \<Rightarrow> store \<Rightarrow> response \<times> store" where
  "reorder_handler_v2 fault orderedIds st =
     (case orderedIds of
        None \<Rightarrow> (Response 400 (Message ''Invalid request format''), st)
      | Some ids \<Rightarrow>
          (case bulkUpdates_v2 0 ids of
             Inl e \<Rightarrow> (Response 500 (MessageError ''Failed to reorder recipes'' e), st)
           | Inr ops \<Rightarrow>
               (case Recipe_bulkWrite fault ops st of
                  (None, st') \<Rightarrow>
                    (Response 200 (Message ''Recipes reordered successfully''), st')
                | (Some e, st') \<Rightarrow>
                    (Response 500 (MessageError ''Failed to reorder recipes'' e), st'))))"

text \<open>A run of create requests, each with the reading of the clock and the identifier
  that the store takes for it; no request fails in the store.\<close>

fun create_all :: "(string \<Rightarrow> bool) \<Rightarrow> (int \<times> oid \<times> body) list \<Rightarrow> store \<Rightarrow> store" where
  "create_all isURL [] st = st"
| "create_all isURL ((now, newId, b) # reqs) st =
     create_all isURL reqs (snd (create_handler isURL None now newId b st))"

text \<open>The documents that a run of valid create requests adds to the collection.\<close>

definition created :: "(string \<Rightarrow> bool) \<Rightarrow> (int \<times> oid \<times> body) list \<Rightarrow> recipe list" where
  "created isURL reqs =
     map (\<lambda>(now, newId, b). new_Recipe now newId (sanitized isURL b)) reqs"

text \<open>A string of a reorder request is known to the collection when it denotes the
  identifier of one of its documents.\<close>

definition known :: "store \<Rightarrow> string \<Rightarrow> bool" where
  "known st s = (case castObjectId s of None \<Rightarrow> False | Some i \<Rightarrow> i \<in> recipe_id ` set st)"

section \<open>The rules of the specification\<close>

text \<open>
  The specification states the validation rules field by field: the trimmed value of
  \<^verbatim>\<open>name\<close>, \<^verbatim>\<open>cuisine\<close> and \<^verbatim>\<open>instructions\<close> must be non-empty, \<^verbatim>\<open>ingredients\<close> must
  be a sequence with at least one element, the trimmed value of \<^verbatim>\<open>image\<close> must be a
  well-formed URL, and \<^verbatim>\<open>prepTimeMinutes\<close>, \<^verbatim>\<open>cookTimeMinutes\<close> and \<^verbatim>\<open>servings\<close> must be
  integers with value at least one. \<open>violates\<close> follows these words, on the body as the
  client sent it; \<open>rule_fields\<close> lists the fields in the order of the rules. A
  violation names the field and gives a reason; \<open>field_reason\<close> is the reason that the
  source gives for the field.
\<close>

datatype field =
  Name | Cuisine | Instructions | Ingredients | Image
| PrepTimeMinutes | CookTimeMinutes | Servings







text \<open>A stored document up to its position.\<close>

definition without_position :: "recipe \<Rightarrow> recipe" where
  "without_position r = r\<lparr>position := 0\<rparr>"

section \<open>Sample data\<close>

text \<open>
  The recogniser used where a concrete one is needed: it accepts what starts with
  \<^verbatim>\<open>http://\<close> and goes on. The sample body is the example of the specification, with a
  name.
\<close>

definition isURL_http :: "string \<Rightarrow> bool" where
  "isURL_http s = (take 7 s = ''http://'' \<and> 7 < length s)"

definition sample_body :: "string \<Rightarrow> body" where
  "sample_body n =
     \<lparr>b_name = Some n, b_cuisine = Some ''Thai'', b_instructions = Some ''x'',
      b_ingredients = Some [''a'', ''b''], b_image = Some ''http://x.com/i.jpg'',
      b_prepTimeMinutes = Some 5, b_cookTimeMinutes = Some 5, b_servings = Some 2,
      b_tags = None, b_position = None\<rparr>"

definition sample_recipe :: "oid \<Rightarrow> string \<Rightarrow> int \<Rightarrow> recipe" where
  "sample_recipe i n p =
     \<lparr>recipe_id = i, name = n, cuisine = ''Thai'', instructions = ''x'',
      ingredients = [''a'', ''b''], image_url = ''http://x.com/i.jpg'',
      prepTimeMinutes = 5, cookTimeMinutes = 5, servings = 2, tags = [], position = p\<rparr>"

definition id_A :: oid where "id_A = ''aaaaaaaaaaaaaaaaaaaaaaaa''"
definition id_B :: oid where "id_B = ''bbbbbbbbbbbbbbbbbbbbbbbb''"
definition id_C :: oid where "id_C = ''cccccccccccccccccccccccc''"
definition id_D :: oid where "id_D = ''dddddddddddddddddddddddd''"

definition store_AB :: store where
  "store_AB = [sample_recipe id_A ''A'' 1000, sample_recipe id_B ''B'' 2000]"

definition store_ABC :: store where
  "store_ABC =
     [sample_recipe id_A ''A'' 1000, sample_recipe id_B ''B'' 2000,
      sample_recipe id_C ''C'' 3000]"

definition sample_run :: "(int \<times> oid \<times> body) list" where
  "sample_run =
     [(1000, id_A, sample_body ''A''), (2000, id_B, sample_body ''B''),
      (3000, id_C, sample_body ''C'')]"

section \<open>Validation\<close>

text \<open>The errors of a request, written out: one check per chain, each on the field as the
  client sent it, since a chain changes no field but its own.\<close>

lemma validationResult_eq:
  "validationResult isURL b =
     withMessage ''name'' ''Recipe name is required'' (notEmpty (trim (toString (b_name b)))) @
     withMessage ''cuisine'' ''Cuisine is required'' (notEmpty (trim (toString (b_cuisine b)))) @
     withMessage ''instructions'' ''Instructions are required''
       (notEmpty (trim (toString (b_instructions b)))) @
     withMessage ''ingredients'' ''At least one ingredient is required''
       (isArray 1 (b_ingredients b)) @
     withMessage ''image'' ''Valid image URL is required'' (isURL (trim (toString (b_image b)))) @
     withMessage ''prepTimeMinutes'' ''Valid prep time is required''
       (isInt 1 (b_prepTimeMinutes b)) @
     withMessage ''cookTimeMinutes'' ''Valid cook time is required''
       (isInt 1 (b_cookTimeMinutes b)) @
     withMessage ''servings'' ''Valid servings number is required'' (isInt 1 (b_servings b))"
  by (simp add: validationResult_def validators_def chain_name_def chain_cuisine_def
      chain_instructions_def chain_ingredients_def chain_image_def chain_prepTimeMinutes_def
      chain_cookTimeMinutes_def chain_servings_def Let_def)

lemma sanitized_eq:
  "sanitized isURL b =
     b\<lparr>b_name := Some (trim (toString (b_name b))),
       b_cuisine := Some (trim (toString (b_cuisine b))),
       b_instructions := Some (trim (toString (b_instructions b))),
       b_image := Some (trim (toString (b_image b)))\<rparr>"
  by (simp add: sanitized_def validators_def chain_name_def chain_cuisine_def
      chain_instructions_def chain_ingredients_def chain_image_def chain_prepTimeMinutes_def
      chain_cookTimeMinutes_def chain_servings_def Let_def)







lemma valid_checks:
  assumes "validationResult isURL b = []"
  shows "trim (toString (b_name b)) \<noteq> []" "trim (toString (b_cuisine b)) \<noteq> []"
    "trim (toString (b_instructions b)) \<noteq> []" "b_ingredients b \<noteq> None"
    "isURL (trim (toString (b_image b)))" "b_prepTimeMinutes b \<noteq> None"
    "b_cookTimeMinutes b \<noteq> None" "b_servings b \<noteq> None"
  using assms
  by (auto simp add: validationResult_eq withMessage_def notEmpty_def isArray_def isInt_def
      split: if_splits option.splits)

lemma valid_required_failures:
  assumes "validationResult isURL b = []" and "\<not> isURL []"
  shows "required_failures (sanitized isURL b) = []"
  using valid_checks [OF assms(1)] assms(2)
  by (auto simp add: required_failures_def sanitized_eq toString_def)

lemma valid_update_failures:
  assumes "validationResult isURL b = []" and "\<not> isURL []"
  shows "update_failures (sanitized isURL b) = []"
  using valid_checks [OF assms(1)] assms(2)
  by (auto simp add: update_failures_def sanitized_eq)

lemma create_handler_valid:
  assumes "validationResult isURL b = []" and "\<not> isURL []"
  shows "create_handler isURL None now newId b st =
    (Response 201 (Doc (new_Recipe now newId (sanitized isURL b))),
     st @ [new_Recipe now newId (sanitized isURL b)])"
  using assms
  by (simp add: create_handler_def Recipe_create_def valid_required_failures)

text \<open>Facts about the sample data.\<close>

lemma not_isURL_http_empty: "\<not> isURL_http []"
  by (simp add: isURL_http_def)

lemma castObjectId_samples:
  "castObjectId id_A = Some id_A" "castObjectId id_B = Some id_B"
  "castObjectId id_C = Some id_C" "castObjectId id_D = Some id_D"
  "castObjectId ''xyz'' = None"
  by (simp_all add: castObjectId_def id_A_def id_B_def id_C_def id_D_def is_hex_def
      hex_lower_def)

lemma sample_ids_distinct:
  "id_A \<noteq> id_B" "id_A \<noteq> id_C" "id_A \<noteq> id_D" "id_B \<noteq> id_C" "id_B \<noteq> id_D" "id_C \<noteq> id_D"
  "id_B \<noteq> id_A" "id_C \<noteq> id_A" "id_D \<noteq> id_A" "id_C \<noteq> id_B" "id_D \<noteq> id_B" "id_D \<noteq> id_C"
  by (simp_all add: id_A_def id_B_def id_C_def id_D_def)

lemma sample_unknown: "\<not> known store_AB id_D" "\<not> known store_AB ''xyz''"
  by (simp_all add: known_def castObjectId_samples store_AB_def sample_recipe_def
      sample_ids_distinct)

lemma sample_valid: "validationResult isURL_http (sample_body ''Pad Thai'') = []"
  by (simp add: validationResult_eq sample_body_def isURL_http_def withMessage_def
      notEmpty_def isArray_def isInt_def plain_decimal_def trim_def toString_def
      is_space_def)




lemma sample_valid_AB:
  "validationResult isURL_http (sample_body ''A'') = []"
  "validationResult isURL_http (sample_body ''B'') = []"
  "validationResult isURL_http (sample_body ''C'') = []"
  "validationResult isURL_http ((sample_body ''A'')\<lparr>b_position := Some 5000\<rparr>) = []"
  by (simp_all add: validationResult_eq sample_body_def isURL_http_def withMessage_def
      notEmpty_def isArray_def isInt_def plain_decimal_def trim_def toString_def
      is_space_def)

lemma sample_new_Recipe:
  "new_Recipe t i (sanitized isURL_http (sample_body ''A'')) = sample_recipe i ''A'' t"
  "new_Recipe t i (sanitized isURL_http (sample_body ''B'')) = sample_recipe i ''B'' t"
  "new_Recipe t i (sanitized isURL_http (sample_body ''C'')) = sample_recipe i ''C'' t"
  "new_Recipe t i (sanitized isURL_http ((sample_body ''A'')\<lparr>b_position := Some 5000\<rparr>)) =
     sample_recipe i ''A'' 5000"
  by (simp_all add: sanitized_eq sample_body_def new_Recipe_def sample_recipe_def trim_def
      toString_def is_space_def)








section \<open>Creating recipes\<close>



text \<open>
  C9. A valid create request with the ingredients \<open>xs\<close> is answered with 201 and a document
  whose ingredients are \<open>xs\<close>, the same elements in the same order; a list request after
  it returns this document, and no other under its identifier.
\<close>

theorem create_list_roundtrip:
  assumes "validationResult isURL b = []" and "\<not> isURL []"
    and "b_ingredients b = Some xs" and "newId \<notin> recipe_id ` set st"
  shows "\<exists>r st'. create_handler isURL None now newId b st = (Response 201 (Doc r), st') \<and>
    ingredients r = xs \<and>
    (\<exists>rs. list_handler None st' = Response 200 (Recipes rs) \<and>
       filter (\<lambda>d. recipe_id d = newId) rs = [r])"
proof -
  let ?r = "new_Recipe now newId (sanitized isURL b)"
  have "filter (\<lambda>d. recipe_id d = newId) st = []"
    using assms(4) by (auto simp add: filter_empty_conv)
  then have "filter (\<lambda>d. recipe_id d = newId) (sort_key position (st @ [?r])) = [?r]"
    by (simp add: filter_sort new_Recipe_def)
  moreover have "ingredients ?r = xs"
    using assms(3) by (simp add: new_Recipe_def sanitized_eq)
  ultimately show ?thesis
    using assms(1,2)
    by (simp add: create_handler_valid list_handler_def Recipe_find_sort_def)
qed

theorem create_list_roundtrip_witness:
  "\<exists>r st'. create_handler isURL_http None 1000 id_B (sample_body ''Pad Thai'')
         [sample_recipe id_A ''Pho'' 1] = (Response 201 (Doc r), st') \<and>
    ingredients r = [''a'', ''b''] \<and>
    (\<exists>rs. list_handler None st' = Response 200 (Recipes rs) \<and>
       filter (\<lambda>d. recipe_id d = id_B) rs = [r])"
proof -
  have "id_B \<notin> recipe_id ` set [sample_recipe id_A ''Pho'' 1]"
    by (simp add: sample_recipe_def sample_ids_distinct)
  moreover have "b_ingredients (sample_body ''Pad Thai'') = Some [''a'', ''b'']"
    by (simp add: sample_body_def)
  ultimately show ?thesis
    using create_list_roundtrip [OF sample_valid not_isURL_http_empty,
        where xs = "[''a'', ''b'']" and newId = id_B
          and st = "[sample_recipe id_A ''Pho'' 1]" and now = 1000]
    by simp
qed

text \<open>In a list that ascends by position, the documents above all those of a collection
  come last; when their positions differ from each other, their order is fixed.\<close>

lemma sorted_partition:
  fixes f :: "'a \<Rightarrow> int"
  assumes "sorted (map f rs)" and "\<And>x y. Q x \<Longrightarrow> f x \<le> f y \<Longrightarrow> Q y"
  shows "rs = filter (\<lambda>r. \<not> Q r) rs @ filter Q rs"
  using assms(1)
proof (induction rs)
  case Nil
  then show ?case by simp
next
  case (Cons a rs)
  then have le: "\<forall>y \<in> set rs. f a \<le> f y" and s: "sorted (map f rs)" by simp_all
  show ?case
  proof (cases "Q a")
    case True
    with le assms(2) have "\<forall>y \<in> set rs. Q y" by blast
    then have "filter (\<lambda>r. \<not> Q r) rs = []" and "filter Q rs = rs"
      by (simp_all add: filter_empty_conv filter_id_conv)
    with True show ?thesis by simp
  next
    case False
    with Cons.IH [OF s] show ?thesis by simp
  qed
qed

lemma ascending_listing_created:
  assumes pos: "map position cs = ts" and incr: "sorted_wrt (<) ts"
    and above: "\<forall>r \<in> set st. \<forall>c \<in> set cs. position r < position c"
    and listing: "ascending_listing (st @ cs) rs"
  shows "\<exists>old. ascending_listing st old \<and> rs = old @ cs"
proof -
  let ?Q = "\<lambda>r. \<forall>s \<in> set st. position s < position r"
  from listing have m: "mset rs = mset (st @ cs)" and s: "sorted (map position rs)"
    by (simp_all add: ascending_listing_def)
  have part: "rs = filter (\<lambda>r. \<not> ?Q r) rs @ filter ?Q rs"
    using s by (rule sorted_partition) fastforce
  have Qst: "filter ?Q st = []"
    by (auto simp add: filter_empty_conv)
  have Qcs: "filter ?Q cs = cs"
    using above by (auto simp add: filter_id_conv)
  have nst: "filter (\<lambda>r. \<not> ?Q r) st = st"
    by (auto simp add: filter_id_conv)
  have ncs: "filter (\<lambda>r. \<not> ?Q r) cs = []"
    using above by (auto simp add: filter_empty_conv)
  have "mset (filter ?Q rs) = filter_mset ?Q (mset rs)" by simp
  also have "\<dots> = mset (filter ?Q (st @ cs))" by (simp only: m mset_filter)
  finally have mnew: "mset (filter ?Q rs) = mset cs" by (simp only: filter_append Qst Qcs) simp
  have "mset (filter (\<lambda>r. \<not> ?Q r) rs) = filter_mset (\<lambda>r. \<not> ?Q r) (mset rs)" by simp
  also have "\<dots> = mset (filter (\<lambda>r. \<not> ?Q r) (st @ cs))" by (simp only: m mset_filter)
  finally have mold: "mset (filter (\<lambda>r. \<not> ?Q r) rs) = mset st"
    by (simp only: filter_append nst ncs) simp
  have scs: "sorted (map position cs)"
    using incr pos by (simp add: strict_sorted_imp_sorted)
  have "distinct (map position cs)"
    using incr pos by (simp add: strict_sorted_iff)
  then have inj: "inj_on position (set cs)" by (simp add: distinct_map)
  have snew: "sorted (map position (filter ?Q rs))"
    using s by (rule sorted_filter)
  have "sort_key position cs = filter ?Q rs"
    using mnew [symmetric] inj snew by (rule sort_key_inj_key_eq)
  moreover have "sort_key position cs = cs"
    using scs by (rule sort_key_id_if_sorted)
  ultimately have new: "filter ?Q rs = cs" by simp
  have "sorted (map position (filter (\<lambda>r. \<not> ?Q r) rs))"
    using s by (rule sorted_filter)
  with mold have "ascending_listing st (filter (\<lambda>r. \<not> ?Q r) rs)"
    by (simp add: ascending_listing_def)
  moreover from part new have "rs = filter (\<lambda>r. \<not> ?Q r) rs @ cs" by simp
  ultimately show ?thesis by blast
qed

lemma ascending_listing_sort_key: "ascending_listing st (sort_key position st)"
  by (simp add: ascending_listing_def)

lemma create_all_valid:
  assumes "\<not> isURL []"
    and "\<forall>q \<in> set reqs. validationResult isURL (snd (snd q)) = []"
  shows "create_all isURL reqs st = st @ created isURL reqs"
  using assms(2)
proof (induction reqs arbitrary: st)
  case Nil
  then show ?case by (simp add: created_def)
next
  case (Cons q reqs)
  obtain now newId b where q: "q = (now, newId, b)" by (cases q)
  from Cons.prems have "validationResult isURL b = []" by (simp add: q)
  then have "create_all isURL (q # reqs) st =
      create_all isURL reqs (st @ [new_Recipe now newId (sanitized isURL b)])"
    by (simp add: q create_handler_valid assms(1))
  also have "\<dots> = (st @ [new_Recipe now newId (sanitized isURL b)]) @ created isURL reqs"
    using Cons.prems by (intro Cons.IH) simp
  finally show ?case by (simp add: q created_def)
qed

lemma position_created:
  assumes "\<forall>q \<in> set reqs. b_position (snd (snd q)) = None"
  shows "map position (created isURL reqs) = map fst reqs"
  using assms
  by (induction reqs) (auto simp add: created_def new_Recipe_def sanitized_eq)

text \<open>
  C3, as stated, at two concrete runs. When the clock reads less at the second creation
  than at the first, the second recipe is listed before the first. When the first body
  carries a position above the clock, the second recipe is listed before the first as well.
\<close>

theorem creation_order_counterexample:
  "list_handler None
     (create_all isURL_http [(2000, id_A, sample_body ''A''), (1000, id_B, sample_body ''B'')] []) =
     Response 200 (Recipes [sample_recipe id_B ''B'' 1000, sample_recipe id_A ''A'' 2000]) \<and>
   list_handler None
     (create_all isURL_http
        [(1000, id_A, (sample_body ''A'')\<lparr>b_position := Some 5000\<rparr>),
         (2000, id_B, sample_body ''B'')] []) =
     Response 200 (Recipes [sample_recipe id_B ''B'' 2000, sample_recipe id_A ''A'' 5000])"
  by (simp add: create_handler_valid sample_valid_AB not_isURL_http_empty sample_new_Recipe
      list_handler_def Recipe_find_sort_def sample_recipe_def)

text \<open>
  C3, amended. Take a run of valid create requests whose bodies carry no position, with
  readings of the clock that increase from each creation to the next, on a collection in
  which every position is below these readings. Then each new document has the reading of
  the clock at its creation as position. The list request after the run is answered with
  an ascending listing of the collection, and every ascending listing of it, whatever the
  order it gives to documents of equal position, consists of the documents that were there
  before, followed by the new ones in the order of creation.
\<close>

theorem creates_listed_in_order:
  assumes "\<not> isURL []"
    and "\<forall>q \<in> set reqs. validationResult isURL (snd (snd q)) = [] \<and>
           b_position (snd (snd q)) = None"
    and "sorted_wrt (<) (map fst reqs)"
    and "\<forall>r \<in> set st. \<forall>q \<in> set reqs. position r < fst q"
  shows "map position (created isURL reqs) = map fst reqs \<and>
    (\<exists>rs. list_handler None (create_all isURL reqs st) = Response 200 (Recipes rs) \<and>
       ascending_listing (create_all isURL reqs st) rs) \<and>
    (\<forall>rs. ascending_listing (create_all isURL reqs st) rs \<longrightarrow>
       (\<exists>old. ascending_listing st old \<and> rs = old @ created isURL reqs))"
proof -
  have pos: "map position (created isURL reqs) = map fst reqs"
    using assms(2) by (simp add: position_created)
  have all: "create_all isURL reqs st = st @ created isURL reqs"
    using assms(1,2) by (simp add: create_all_valid)
  have above: "\<forall>r \<in> set st. \<forall>c \<in> set (created isURL reqs). position r < position c"
  proof (intro ballI)
    fix r c assume r: "r \<in> set st" and "c \<in> set (created isURL reqs)"
    then have "position c \<in> set (map position (created isURL reqs))" by simp
    then have "position c \<in> fst ` set reqs" by (simp add: pos)
    with r assms(4) show "position r < position c" by force
  qed
  have "\<exists>old. ascending_listing st old \<and> rs = old @ created isURL reqs"
    if "ascending_listing (create_all isURL reqs st) rs" for rs
    using pos assms(3) above that [unfolded all] by (rule ascending_listing_created)
  with pos show ?thesis
    by (simp add: list_handler_def Recipe_find_sort_def ascending_listing_sort_key)
qed

theorem creates_listed_in_order_witness:
  "\<exists>old. list_handler None (create_all isURL_http sample_run [sample_recipe id_D ''D'' 1]) =
       Response 200 (Recipes (old @ [sample_recipe id_A ''A'' 1000, sample_recipe id_B ''B'' 2000,
         sample_recipe id_C ''C'' 3000])) \<and>
     ascending_listing [sample_recipe id_D ''D'' 1] old"
proof -
  let ?st = "[sample_recipe id_D ''D'' 1]"
  have 1: "\<forall>q \<in> set sample_run. validationResult isURL_http (snd (snd q)) = [] \<and>
      b_position (snd (snd q)) = None"
    by (simp add: sample_run_def sample_valid_AB) (simp add: sample_body_def)
  have 2: "sorted_wrt (<) (map fst sample_run)"
    by (simp add: sample_run_def)
  have 3: "\<forall>r \<in> set ?st. \<forall>q \<in> set sample_run. position r < fst q"
    by (simp add: sample_run_def sample_recipe_def)
  have c: "created isURL_http sample_run =
      [sample_recipe id_A ''A'' 1000, sample_recipe id_B ''B'' 2000,
       sample_recipe id_C ''C'' 3000]"
    by (simp add: created_def sample_run_def sample_new_Recipe)
  note t = creates_listed_in_order [OF not_isURL_http_empty 1 2 3]
  from t [THEN conjunct2, THEN conjunct1] obtain rs where
    l: "list_handler None (create_all isURL_http sample_run ?st) = Response 200 (Recipes rs)"
    and a: "ascending_listing (create_all isURL_http sample_run ?st) rs"
    by (elim exE conjE)
  from t [THEN conjunct2, THEN conjunct2, rule_format, OF a] obtain old where
    o: "ascending_listing ?st old" and r: "rs = old @ created isURL_http sample_run"
    by (elim exE conjE)
  from l o show ?thesis
    unfolding r c by (intro exI conjI)
qed

section \<open>Updating a recipe\<close>

text \<open>
  C4, as stated, at a concrete input: the string \<^verbatim>\<open>xyz\<close> is the identifier of no
  document, the body is valid and the store works, and the answer is 500.
\<close>

theorem update_unknown_id_counterexample:
  "update_handler isURL_http None ''xyz'' (sample_body ''Pad Thai'')
     [sample_recipe id_A ''Pho'' 1] =
   (Response 500 (Message ''Server error''), [sample_recipe id_A ''Pho'' 1])"
  using sample_valid
  by (simp add: update_handler_def Recipe_findByIdAndUpdate_def castObjectId_samples)

text \<open>
  C4, amended. Take an update request with a valid body whose identifier is that of no
  document of the collection. When the identifier is a well-formed \<^verbatim>\<open>ObjectId\<close> and
  the store works, the answer is 404 with the message \<^verbatim>\<open>Recipe not found\<close>. The
  answer is 500 when the store fails, and also when the identifier is not a well-formed
  \<^verbatim>\<open>ObjectId\<close>. In each case the collection stays as it was.
\<close>

theorem update_not_found:
  assumes "validationResult isURL b = []" and "\<not> isURL []"
    and "\<not> known st ident"
  shows "update_handler isURL fault ident b st =
    (case castObjectId ident of
       None \<Rightarrow> (Response 500 (Message ''Server error''), st)
     | Some i \<Rightarrow>
         (case fault of
            None \<Rightarrow> (Response 404 (Message ''Recipe not found''), st)
          | Some m \<Rightarrow> (Response 500 (Message ''Server error''), st)))"
proof (cases "castObjectId ident")
  case None
  with assms(1) show ?thesis
    by (simp add: update_handler_def Recipe_findByIdAndUpdate_def)
next
  case (Some i)
  with assms(3) have "i \<notin> recipe_id ` set st" by (simp add: known_def)
  then have "find (\<lambda>r. recipe_id r = i) st = None"
    by (auto simp add: find_None_iff)
  then show ?thesis
    using assms(1) Some valid_update_failures [OF assms(1,2)]
    by (simp add: update_handler_def Recipe_findByIdAndUpdate_def split: option.splits)
qed

theorem update_not_found_witness:
  "update_handler isURL_http None id_D (sample_body ''Pad Thai'') store_AB =
     (Response 404 (Message ''Recipe not found''), store_AB) \<and>
   update_handler isURL_http (Some ''no connection'') id_D (sample_body ''Pad Thai'') store_AB =
     (Response 500 (Message ''Server error''), store_AB) \<and>
   update_handler isURL_http None ''xyz'' (sample_body ''Pad Thai'') store_AB =
     (Response 500 (Message ''Server error''), store_AB)"
  using update_not_found [OF sample_valid not_isURL_http_empty sample_unknown(1), of None]
    update_not_found [OF sample_valid not_isURL_http_empty sample_unknown(1),
      of "Some ''no connection''"]
    update_not_found [OF sample_valid not_isURL_http_empty sample_unknown(2), of None]
  by (simp add: castObjectId_samples)

section \<open>Storage failures of the list request\<close>

text \<open>
  C6, as stated, at a concrete input: the list handler of \<^verbatim>\<open>server.js\<close> answers a
  failure of the store with a message alone.
\<close>

theorem list_failure_counterexample:
  "list_handler (Some ''connection lost'') [] = Response 500 (Message ''Server error'')"
  by (simp add: list_handler_def Recipe_find_sort_def)

text \<open>
  C6, amended. When the store fails, the list handler of the versions in \<^verbatim>\<open>part_000\<close>
  answers 500 with a message and the underlying error, and the list handler of
  \<^verbatim>\<open>server.js\<close> answers 500 with the message \<^verbatim>\<open>Server error\<close> alone.
\<close>

theorem list_failure_body:
  "list_handler_v2 (Some m) st =
     Response 500 (MessageError ''Failed to fetch recipes'' (StorageError m)) \<and>
   list_handler (Some m) st = Response 500 (Message ''Server error'')"
  by (simp add: list_handler_def list_handler_v2_def Recipe_find_sort_def)

section \<open>The reorder request\<close>

lemma updateOne_without_position:
  "map without_position (updateOne i (\<lambda>r. r\<lparr>position := p\<rparr>) st) = map without_position st"
  by (induction st) (simp_all add: without_position_def)

lemma apply_ops_without_position:
  "map without_position (apply_ops ops st) = map without_position st"
  unfolding apply_ops_def
  by (induction ops arbitrary: st) (simp_all add: updateOne_without_position)

lemma bulkWrite_without_position:
  "map without_position (snd (Recipe_bulkWrite fault ops st)) = map without_position st"
  by (simp add: Recipe_bulkWrite_def apply_ops_without_position split: option.splits prod.splits)

text \<open>
  C8. Whatever the request and whether or not the store fails on the way, the reorder
  handler of either version leaves the collection with the same documents in the same
  order, each with its identifier, name, cuisine, instructions, ingredients, image,
  times, servings and tags as before: only positions change.
\<close>

theorem reorder_changes_position_only:
  "map without_position (snd (reorder_handler fault orderedIds st)) = map without_position st \<and>
   map without_position (snd (reorder_handler_v2 fault orderedIds st)) =
     map without_position st"
proof
  show "map without_position (snd (reorder_handler fault orderedIds st)) =
      map without_position st"
  proof (cases orderedIds)
    case None
    then show ?thesis by (simp add: reorder_handler_def)
  next
    case (Some ids)
    show ?thesis
    proof (cases "castBulkWrite (bulkUpdates ids)")
      case (Inl e)
      with Some show ?thesis
        by (simp add: reorder_handler_def Recipe_bulkWrite_strings_def)
    next
      case (Inr cs)
      have "snd (reorder_handler fault orderedIds st) = snd (Recipe_bulkWrite fault cs st)"
        using Some Inr
        by (simp add: reorder_handler_def Recipe_bulkWrite_strings_def
            split: prod.splits option.splits)
      then show ?thesis by (simp add: bulkWrite_without_position)
    qed
  qed
next
  show "map without_position (snd (reorder_handler_v2 fault orderedIds st)) =
      map without_position st"
  proof (cases orderedIds)
    case None
    then show ?thesis by (simp add: reorder_handler_v2_def)
  next
    case (Some ids)
    show ?thesis
    proof (cases "bulkUpdates_v2 0 ids")
      case (Inl e)
      with Some show ?thesis by (simp add: reorder_handler_v2_def)
    next
      case (Inr cs)
      have "snd (reorder_handler_v2 fault orderedIds st) = snd (Recipe_bulkWrite fault cs st)"
        using Some Inr
        by (simp add: reorder_handler_v2_def split: prod.splits option.splits)
      then show ?thesis by (simp add: bulkWrite_without_position)
    qed
  qed
qed

text \<open>How one more operation at the end of the batch changes the collection.\<close>

lemma map_id_updateOne:
  "map recipe_id (updateOne i (set_pos p) st) = map recipe_id st"
  by (induction st) simp_all

lemma map_id_apply_ops: "map recipe_id (apply_ops ops st) = map recipe_id st"
  unfolding apply_ops_def
  by (induction ops arbitrary: st) (simp_all add: map_id_updateOne)

lemma updateOne_absent: "i \<notin> recipe_id ` set st \<Longrightarrow> updateOne i f st = st"
  by (induction st) auto

lemma filter_updateOne_other:
  "\<forall>r. P r \<longrightarrow> recipe_id r \<noteq> i \<Longrightarrow>
   filter P (updateOne i (set_pos p) st) = filter P st"
  by (induction st) auto

lemma filter_updateOne_same:
  "distinct (map recipe_id st) \<Longrightarrow> i \<in> recipe_id ` set st \<Longrightarrow>
   \<exists>d. filter (\<lambda>r. recipe_id r = i) (updateOne i (set_pos p) st) = [d] \<and> position d = p"
proof (induction st)
  case Nil
  then show ?case by simp
next
  case (Cons a st)
  show ?case
  proof (cases "recipe_id a = i")
    case True
    with Cons.prems(1) have "filter (\<lambda>r. recipe_id r = i) st = []"
      by (auto simp add: filter_empty_conv image_iff)
    with True show ?thesis by simp
  next
    case False
    with Cons show ?thesis by auto
  qed
qed

lemma apply_ops_snoc:
  "apply_ops (ops @ [w]) st =
     updateOne (filter_id w) (set_pos (set_position w)) (apply_ops ops st)"
  by (simp add: apply_ops_def)

lemma bulkUpdates_snoc:
  "bulkUpdates (xs @ [c]) = bulkUpdates xs @ [UpdateOne c (int (length xs) + 1)]"
  by (simp add: bulkUpdates_def enumerate_append_eq)

lemma in_updateOne_cases:
  "r \<in> set (updateOne i f st) \<Longrightarrow> r \<in> set st \<or> (\<exists>d \<in> set st. recipe_id d = i \<and> r = f d)"
  by (induction st) (auto split: if_splits)

lemma in_updateOne_other:
  assumes "r \<in> set (updateOne i (set_pos p) st)" and "recipe_id r \<noteq> i"
  shows "r \<in> set st"
proof -
  from assms(1) have "r \<in> set st \<or> (\<exists>d \<in> set st. recipe_id d = i \<and> r = set_pos p d)"
    by (rule in_updateOne_cases)
  then show ?thesis
  proof
    assume "r \<in> set st" then show ?thesis .
  next
    assume "\<exists>d \<in> set st. recipe_id d = i \<and> r = set_pos p d"
    then obtain d where "recipe_id d = i" and "r = set_pos p d" by blast
    then have "recipe_id r = i" by simp
    with assms(2) show ?thesis by simp
  qed
qed

lemma in_updateOne_same_gen:
  "distinct (map recipe_id st) \<Longrightarrow> r \<in> set (updateOne i f st) \<Longrightarrow> recipe_id r = i \<Longrightarrow>
   \<exists>d. r = f d"
  by (induction st) (auto split: if_splits simp add: image_iff)

lemma in_updateOne_same:
  assumes "distinct (map recipe_id st)" and "r \<in> set (updateOne i (set_pos p) st)"
    and "recipe_id r = i"
  shows "position r = p"
proof -
  from assms obtain d where "r = set_pos p d"
    using in_updateOne_same_gen by blast
  then show ?thesis by simp
qed

lemma castBulkWrite_enumerate:
  "map castObjectId ids = map Some cids \<Longrightarrow>
   castBulkWrite (map (\<lambda>(index, i). UpdateOne i (int index + 1)) (enumerate m ids)) =
     Inr (map (\<lambda>(index, i). UpdateOne i (int index + 1)) (enumerate m cids))"
proof (induction ids arbitrary: m cids)
  case Nil
  then show ?case by simp
next
  case (Cons s ids)
  then obtain i cids' where cids: "cids = i # cids'" by (cases cids) auto
  with Cons.prems have "castObjectId s = Some i" and "map castObjectId ids = map Some cids'"
    by simp_all
  with Cons.IH [of cids' "Suc m"] show ?case by (simp add: cids)
qed

lemma bulkUpdates_v2_enumerate:
  "map castObjectId ids = map Some cids \<Longrightarrow>
   bulkUpdates_v2 m ids = Inr (map (\<lambda>(index, i). UpdateOne i (int index + 1)) (enumerate m cids))"
proof (induction ids arbitrary: m cids)
  case Nil
  then show ?case by simp
next
  case (Cons s ids)
  then obtain i cids' where cids: "cids = i # cids'" by (cases cids) auto
  with Cons.prems have "castObjectId s = Some i" and "map castObjectId ids = map Some cids'"
    by simp_all
  with Cons.IH [of cids' "Suc m"] show ?case by (simp add: cids)
qed

lemma reorder_handler_ok:
  assumes "map castObjectId ids = map Some cids"
  shows "reorder_handler None (Some ids) st =
      (Response 200 (Message ''Recipes reordered successfully''),
       apply_ops (bulkUpdates cids) st)"
    and "reorder_handler_v2 None (Some ids) st =
      (Response 200 (Message ''Recipes reordered successfully''),
       apply_ops (bulkUpdates cids) st)"
  using castBulkWrite_enumerate [OF assms, of 0] bulkUpdates_v2_enumerate [OF assms, of 0]
  by (simp_all add: reorder_handler_def reorder_handler_v2_def Recipe_bulkWrite_strings_def
      Recipe_bulkWrite_def bulkUpdates_def)

lemma filter_apply_ops_other:
  "\<forall>r. P r \<longrightarrow> recipe_id r \<notin> filter_id ` set ops \<Longrightarrow>
   filter P (apply_ops ops st) = filter P st"
proof (induction ops rule: rev_induct)
  case Nil
  then show ?case by (simp add: apply_ops_def)
next
  case (snoc w ops)
  have "filter P (apply_ops (ops @ [w]) st) = filter P (apply_ops ops st)"
    unfolding apply_ops_snoc using snoc.prems by (intro filter_updateOne_other) auto
  with snoc show ?case by simp
qed

lemma filter_id_bulkUpdates: "filter_id ` set (bulkUpdates xs) = set xs"
proof -
  have "map filter_id (bulkUpdates xs) = xs"
    by (induction xs rule: rev_induct) (simp_all add: bulkUpdates_snoc, simp add: bulkUpdates_def)
  then have "set (map filter_id (bulkUpdates xs)) = set xs" by simp
  then show ?thesis by simp
qed

lemma known_filter:
  "map castObjectId ids = map Some cids \<Longrightarrow>
   map castObjectId (filter (known st) ids) =
     map Some (filter (\<lambda>i. i \<in> recipe_id ` set st) cids)"
proof (induction ids arbitrary: cids)
  case Nil
  then show ?case by simp
next
  case (Cons s ids)
  then obtain i cids' where cids: "cids = i # cids'" by (cases cids) auto
  with Cons.prems have "castObjectId s = Some i" and "map castObjectId ids = map Some cids'"
    by simp_all
  with Cons.IH [of cids'] show ?case by (simp add: cids known_def)
qed

text \<open>After the batch for \<open>xs\<close>, a document named in \<open>xs\<close> has a position of at most the length
  of \<open>xs\<close>, and the position \<open>k + 1\<close> when \<open>xs\<close> names it once, at index \<open>k\<close>.\<close>

lemma position_bound:
  assumes "distinct (map recipe_id st)"
  shows "r \<in> set (apply_ops (bulkUpdates xs) st) \<Longrightarrow> recipe_id r \<in> set xs \<Longrightarrow>
    position r \<le> int (length xs)"
proof (induction xs arbitrary: r rule: rev_induct)
  case Nil
  then show ?case by simp
next
  case (snoc c xs)
  let ?st0 = "apply_ops (bulkUpdates xs) st"
  have d0: "distinct (map recipe_id ?st0)"
    using assms by (simp add: map_id_apply_ops)
  have r: "r \<in> set (updateOne c (set_pos (int (length xs) + 1)) ?st0)"
    using snoc.prems(1) by (simp add: bulkUpdates_snoc apply_ops_snoc)
  show ?case
  proof (cases "recipe_id r = c")
    case True
    with d0 r have "position r = int (length xs) + 1" by (rule in_updateOne_same)
    then show ?thesis by simp
  next
    case False
    with r have "r \<in> set ?st0" by (rule in_updateOne_other)
    moreover from False snoc.prems(2) have "recipe_id r \<in> set xs" by simp
    ultimately have "position r \<le> int (length xs)" by (rule snoc.IH)
    then show ?thesis by simp
  qed
qed

lemma position_index:
  assumes "distinct (map recipe_id st)"
  shows "distinct xs \<Longrightarrow> r \<in> set (apply_ops (bulkUpdates xs) st) \<Longrightarrow> k < length xs \<Longrightarrow>
    recipe_id r = xs ! k \<Longrightarrow> position r = int k + 1"
proof (induction xs arbitrary: r k rule: rev_induct)
  case Nil
  then show ?case by simp
next
  case (snoc c xs)
  let ?st0 = "apply_ops (bulkUpdates xs) st"
  have d0: "distinct (map recipe_id ?st0)"
    using assms by (simp add: map_id_apply_ops)
  have r: "r \<in> set (updateOne c (set_pos (int (length xs) + 1)) ?st0)"
    using snoc.prems(2) by (simp add: bulkUpdates_snoc apply_ops_snoc)
  from snoc.prems(1) have dx: "distinct xs" and c: "c \<notin> set xs" by simp_all
  show ?case
  proof (cases "k = length xs")
    case True
    with snoc.prems(4) have "recipe_id r = c" by simp
    with d0 r have "position r = int (length xs) + 1" by (rule in_updateOne_same)
    with True show ?thesis by simp
  next
    case False
    with snoc.prems(3) have k: "k < length xs" by simp
    with snoc.prems(4) have id: "recipe_id r = xs ! k" by (simp add: nth_append)
    with k c have "recipe_id r \<noteq> c" by auto
    with r have "r \<in> set ?st0" by (rule in_updateOne_other)
    with dx show ?thesis using k id by (rule snoc.IH)
  qed
qed

text \<open>The order of the listing after a batch: the listed documents that the batch names
  come in the order of the last occurrence of their identifiers in the batch.\<close>

lemma insort_key_snoc:
  "f a \<le> f x \<Longrightarrow> insort_key f a (ys @ [x]) = insort_key f a ys @ [x]"
  by (induction ys) simp_all

lemma insort_key_greatest:
  "\<forall>y \<in> set ys. f y < f x \<Longrightarrow> insort_key f x ys = ys @ [x]"
  by (induction ys) auto

lemma sort_key_greatest_last:
  fixes f :: "'a \<Rightarrow> int"
  assumes "filter Q xs = [d]" and "\<forall>y \<in> set xs. \<not> Q y \<longrightarrow> f y < f d"
  shows "sort_key f xs = sort_key f (filter (\<lambda>y. \<not> Q y) xs) @ [d]"
  using assms
proof (induction xs)
  case Nil
  then show ?case by simp
next
  case (Cons a xs)
  show ?case
  proof (cases "Q a")
    case True
    with Cons.prems(1) have a: "a = d" and none: "filter Q xs = []" by simp_all
    from none have rest: "filter (\<lambda>y. \<not> Q y) xs = xs"
      by (simp add: filter_empty_conv filter_id_conv)
    from none Cons.prems(2) have "\<forall>y \<in> set (sort_key f xs). f y < f d"
      by (auto simp add: filter_empty_conv)
    then have "insort_key f d (sort_key f xs) = sort_key f xs @ [d]"
      by (rule insort_key_greatest)
    with True a rest show ?thesis by simp
  next
    case False
    with Cons.prems(1) have one: "filter Q xs = [d]" by simp
    from False Cons.prems(2) have "f a \<le> f d" by auto
    moreover have "sort_key f xs = sort_key f (filter (\<lambda>y. \<not> Q y) xs) @ [d]"
      using one Cons.prems(2) by (intro Cons.IH) auto
    ultimately show ?thesis
      using False by (simp add: insort_key_snoc)
  qed
qed

lemma remdups_snoc: "remdups (xs @ [c]) = filter (\<lambda>x. x \<noteq> c) (remdups xs) @ [c]"
  by (induction xs) auto

lemma reorder_listing:
  assumes "distinct (map recipe_id st)"
  shows "map recipe_id (filter (\<lambda>r. recipe_id r \<in> set xs)
           (sort_key position (apply_ops (bulkUpdates xs) st))) =
         filter (\<lambda>i. i \<in> recipe_id ` set st) (remdups xs)"
proof (induction xs rule: rev_induct)
  case Nil
  then show ?case by simp
next
  case (snoc c xs)
  let ?st0 = "apply_ops (bulkUpdates xs) st"
  let ?p = "int (length xs) + 1"
  let ?st1 = "updateOne c (set_pos ?p) ?st0"
  have st1: "apply_ops (bulkUpdates (xs @ [c])) st = ?st1"
    by (simp add: bulkUpdates_snoc apply_ops_snoc)
  have d0: "distinct (map recipe_id ?st0)"
    using assms by (simp add: map_id_apply_ops)
  have ids0: "recipe_id ` set ?st0 = recipe_id ` set st"
    using map_id_apply_ops [of "bulkUpdates xs" st] by (metis set_map)
  show ?case
  proof (cases "c \<in> recipe_id ` set st")
    case False
    then have "?st1 = ?st0" by (simp add: updateOne_absent ids0)
    moreover have "filter (\<lambda>r. recipe_id r \<in> set (xs @ [c])) (sort_key position ?st0) =
        filter (\<lambda>r. recipe_id r \<in> set xs) (sort_key position ?st0)"
      using False ids0 by (intro filter_cong) auto
    moreover have "filter (\<lambda>i. i \<in> recipe_id ` set st) (filter (\<lambda>x. x \<noteq> c) (remdups xs)) =
        filter (\<lambda>i. i \<in> recipe_id ` set st) (remdups xs)"
      unfolding filter_filter using False by (intro filter_cong) auto
    ultimately show ?thesis
      using False snoc.IH by (simp only: st1 remdups_snoc filter_append) simp
  next
    case True
    let ?F1 = "filter (\<lambda>r. recipe_id r \<in> set (xs @ [c])) ?st1"
    let ?Q = "\<lambda>r. recipe_id r = c"
    obtain d where d: "filter ?Q ?st1 = [d]" and pd: "position d = ?p"
      using filter_updateOne_same [OF d0, of c ?p] True ids0 by auto
    have "d \<in> set (filter ?Q ?st1)" by (simp add: d)
    then have idd: "recipe_id d = c" by simp
    have Qd: "filter ?Q ?F1 = [d]"
    proof -
      have "filter ?Q ?F1 = filter ?Q ?st1"
        unfolding filter_filter by (rule filter_cong) auto
      with d show ?thesis by simp
    qed
    have rest: "filter (\<lambda>y. \<not> ?Q y) ?F1 =
        filter (\<lambda>r. recipe_id r \<noteq> c) (filter (\<lambda>r. recipe_id r \<in> set xs) ?st0)"
    proof -
      have "filter (\<lambda>y. \<not> ?Q y) ?F1 =
          filter (\<lambda>r. recipe_id r \<in> set xs \<and> recipe_id r \<noteq> c) ?st1"
        unfolding filter_filter by (rule filter_cong) auto
      also have "\<dots> = filter (\<lambda>r. recipe_id r \<in> set xs \<and> recipe_id r \<noteq> c) ?st0"
        by (rule filter_updateOne_other) simp
      also have "\<dots> = filter (\<lambda>r. recipe_id r \<noteq> c) (filter (\<lambda>r. recipe_id r \<in> set xs) ?st0)"
        unfolding filter_filter by (rule filter_cong) auto
      finally show ?thesis .
    qed
    have small: "\<forall>y \<in> set ?F1. \<not> ?Q y \<longrightarrow> position y < position d"
    proof (intro ballI impI)
      fix y assume y: "y \<in> set ?F1" and ny: "\<not> ?Q y"
      then have "y \<in> set ?st1" and "recipe_id y \<in> set xs" by auto
      with ny have "y \<in> set ?st0" by (auto dest: in_updateOne_other)
      with assms have "position y \<le> int (length xs)"
        using \<open>recipe_id y \<in> set xs\<close> by (rule position_bound)
      with pd show "position y < position d" by simp
    qed
    have "sort_key position ?F1 = sort_key position (filter (\<lambda>y. \<not> ?Q y) ?F1) @ [d]"
      using Qd small by (rule sort_key_greatest_last)
    then have "filter (\<lambda>r. recipe_id r \<in> set (xs @ [c])) (sort_key position ?st1) =
        filter (\<lambda>r. recipe_id r \<noteq> c)
          (filter (\<lambda>r. recipe_id r \<in> set xs) (sort_key position ?st0)) @ [d]"
      by (simp only: filter_sort rest)
    then have "map recipe_id (filter (\<lambda>r. recipe_id r \<in> set (xs @ [c])) (sort_key position ?st1)) =
        filter (\<lambda>i. i \<noteq> c) (map recipe_id
          (filter (\<lambda>r. recipe_id r \<in> set xs) (sort_key position ?st0))) @ [c]"
      by (simp add: idd filter_map comp_def)
    also have "\<dots> = filter (\<lambda>i. i \<noteq> c) (filter (\<lambda>i. i \<in> recipe_id ` set st) (remdups xs)) @ [c]"
      by (simp only: snoc.IH)
    also have "\<dots> = filter (\<lambda>i. i \<in> recipe_id ` set st) (remdups (xs @ [c]))"
      using True by (simp add: remdups_snoc conj_commute)
    finally show ?thesis by (simp only: st1)
  qed
qed

text \<open>
  C1, as stated, at a concrete input: the request names the first recipe at the indices 0
  and 2. It is answered with 200; the recipe gets position 3, not 1, and the list request
  returns the second recipe before it.
\<close>

theorem reorder_repeated_id_counterexample:
  "reorder_handler None (Some [id_A, id_B, id_A]) store_AB =
     (Response 200 (Message ''Recipes reordered successfully''),
      [sample_recipe id_A ''A'' 3, sample_recipe id_B ''B'' 2]) \<and>
   list_handler None [sample_recipe id_A ''A'' 3, sample_recipe id_B ''B'' 2] =
     Response 200 (Recipes [sample_recipe id_B ''B'' 2, sample_recipe id_A ''A'' 3])"
  by (simp add: reorder_handler_def Recipe_bulkWrite_strings_def bulkUpdates_def
      castObjectId_samples Recipe_bulkWrite_def apply_ops_def store_AB_def sample_recipe_def
      sample_ids_distinct list_handler_def Recipe_find_sort_def)

text \<open>
  C1, amended. Let the strings of \<open>orderedIds\<close> denote the identifiers \<open>cids\<close>, each of a
  document of the collection and none twice. With the store working, the reorder request
  is answered with 200; afterwards the document named at index \<open>k\<close> has position \<open>k + 1\<close>,
  and a list request returns the named documents in the order of \<open>cids\<close>: among any
  others, and as the whole answer when the request names every document.
\<close>

theorem reorder_then_list:
  assumes "distinct (map recipe_id st)"
    and "map castObjectId ids = map Some cids"
    and "distinct cids" and "set cids \<subseteq> recipe_id ` set st"
  shows "\<exists>st'. reorder_handler None (Some ids) st =
        (Response 200 (Message ''Recipes reordered successfully''), st') \<and>
      (\<forall>k < length cids. \<forall>r \<in> set st'. recipe_id r = cids ! k \<longrightarrow> position r = int k + 1) \<and>
      (\<exists>rs. list_handler None st' = Response 200 (Recipes rs) \<and>
         map recipe_id (filter (\<lambda>r. recipe_id r \<in> set cids) rs) = cids \<and>
         (recipe_id ` set st \<subseteq> set cids \<longrightarrow> map recipe_id rs = cids))"
proof -
  let ?st' = "apply_ops (bulkUpdates cids) st"
  let ?rs = "sort_key position ?st'"
  have pos: "\<forall>k < length cids. \<forall>r \<in> set ?st'. recipe_id r = cids ! k \<longrightarrow> position r = int k + 1"
    using position_index [OF assms(1,3)] by blast
  have "filter (\<lambda>i. i \<in> recipe_id ` set st) (remdups cids) = cids"
    using assms(3,4) by (auto simp add: distinct_remdups_id filter_id_conv)
  then have order: "map recipe_id (filter (\<lambda>r. recipe_id r \<in> set cids) ?rs) = cids"
    using reorder_listing [OF assms(1), of cids] by simp
  have all: "map recipe_id ?rs = cids" if "recipe_id ` set st \<subseteq> set cids"
  proof -
    have "set (map recipe_id ?st') = set (map recipe_id st)"
      by (simp only: map_id_apply_ops)
    then have "recipe_id ` set ?rs = recipe_id ` set st" by simp
    with that have "recipe_id ` set ?rs \<subseteq> set cids" by simp
    then have "\<forall>r \<in> set ?rs. recipe_id r \<in> set cids" by blast
    then have "filter (\<lambda>r. recipe_id r \<in> set cids) ?rs = ?rs"
      by (simp add: filter_id_conv)
    with order show ?thesis by simp
  qed
  show ?thesis
    using reorder_handler_ok(1) [OF assms(2), of st] pos order all
    by (simp add: list_handler_def Recipe_find_sort_def)
qed

theorem reorder_then_list_witness:
  "\<exists>st' rs.
     reorder_handler None (Some [id_C, id_A, id_B]) store_ABC =
       (Response 200 (Message ''Recipes reordered successfully''), st') \<and>
     list_handler None st' = Response 200 (Recipes rs) \<and>
     map recipe_id rs = [id_C, id_A, id_B]"
proof -
  have 1: "distinct (map recipe_id store_ABC)"
    by (simp add: store_ABC_def sample_recipe_def sample_ids_distinct)
  have 2: "map castObjectId [id_C, id_A, id_B] = map Some [id_C, id_A, id_B]"
    by (simp add: castObjectId_samples)
  have 3: "distinct [id_C, id_A, id_B]"
    by (simp add: sample_ids_distinct)
  have 4: "set [id_C, id_A, id_B] \<subseteq> recipe_id ` set store_ABC"
    by (simp add: store_ABC_def sample_recipe_def)
  have 5: "recipe_id ` set store_ABC \<subseteq> set [id_C, id_A, id_B]"
    by (simp add: store_ABC_def sample_recipe_def)
  from reorder_then_list [OF 1 2 3 4] obtain st' where
    h: "reorder_handler None (Some [id_C, id_A, id_B]) store_ABC =
        (Response 200 (Message ''Recipes reordered successfully''), st') \<and>
      (\<forall>k < length [id_C, id_A, id_B]. \<forall>r \<in> set st'.
         recipe_id r = [id_C, id_A, id_B] ! k \<longrightarrow> position r = int k + 1) \<and>
      (\<exists>rs. list_handler None st' = Response 200 (Recipes rs) \<and>
         map recipe_id (filter (\<lambda>r. recipe_id r \<in> set [id_C, id_A, id_B]) rs) =
           [id_C, id_A, id_B] \<and>
         (recipe_id ` set store_ABC \<subseteq> set [id_C, id_A, id_B] \<longrightarrow>
          map recipe_id rs = [id_C, id_A, id_B]))" ..
  from h [THEN conjunct2, THEN conjunct2] obtain rs where
    r: "list_handler None st' = Response 200 (Recipes rs) \<and>
         map recipe_id (filter (\<lambda>r. recipe_id r \<in> set [id_C, id_A, id_B]) rs) =
           [id_C, id_A, id_B] \<and>
         (recipe_id ` set store_ABC \<subseteq> set [id_C, id_A, id_B] \<longrightarrow>
          map recipe_id rs = [id_C, id_A, id_B])" ..
  from r [THEN conjunct2, THEN conjunct2] 5 have "map recipe_id rs = [id_C, id_A, id_B]" ..
  with h [THEN conjunct1] r [THEN conjunct1] show ?thesis by (intro exI conjI)
qed

text \<open>A string that is no identifier makes both versions answer 500.\<close>

lemma castBulkWrite_fails:
  "None \<in> set (map castObjectId ids) \<Longrightarrow>
   \<exists>e. castBulkWrite (map (\<lambda>(index, i). UpdateOne i (int index + 1)) (enumerate m ids)) = Inl e"
proof (induction ids arbitrary: m)
  case Nil
  then show ?case by simp
next
  case (Cons s ids)
  show ?case
  proof (cases "castObjectId s")
    case None
    then show ?thesis by simp
  next
    case (Some i)
    with Cons.prems have "None \<in> set (map castObjectId ids)" by auto
    then obtain e where
      "castBulkWrite (map (\<lambda>(index, i). UpdateOne i (int index + 1)) (enumerate (Suc m) ids)) =
        Inl e"
      using Cons.IH by blast
    with Some show ?thesis by simp
  qed
qed

lemma bulkUpdates_v2_fails:
  "None \<in> set (map castObjectId ids) \<Longrightarrow> \<exists>e. bulkUpdates_v2 m ids = Inl e"
proof (induction ids arbitrary: m)
  case Nil
  then show ?case by simp
next
  case (Cons s ids)
  show ?case
  proof (cases "castObjectId s")
    case None
    then show ?thesis by simp
  next
    case (Some i)
    with Cons.prems have "None \<in> set (map castObjectId ids)" by auto
    then obtain e where "bulkUpdates_v2 (Suc m) ids = Inl e"
      using Cons.IH by blast
    with Some show ?thesis by simp
  qed
qed

lemma reorder_handler_malformed:
  assumes "None \<in> set (map castObjectId ids)"
  shows "reorder_handler fault (Some ids) st = (Response 500 (Message ''Server error''), st)"
    and "\<exists>e. reorder_handler_v2 fault (Some ids) st =
      (Response 500 (MessageError ''Failed to reorder recipes'' e), st)"
proof -
  from castBulkWrite_fails [OF assms, of 0] obtain e where
    "castBulkWrite (bulkUpdates ids) = Inl e" by (auto simp add: bulkUpdates_def)
  then show "reorder_handler fault (Some ids) st = (Response 500 (Message ''Server error''), st)"
    by (simp add: reorder_handler_def Recipe_bulkWrite_strings_def)
  from bulkUpdates_v2_fails [OF assms, of 0] obtain e' where "bulkUpdates_v2 0 ids = Inl e'"
    by blast
  then show "\<exists>e. reorder_handler_v2 fault (Some ids) st =
      (Response 500 (MessageError ''Failed to reorder recipes'' e), st)"
    by (simp add: reorder_handler_v2_def)
qed

text \<open>
  C5, as stated, at a concrete input: \<^verbatim>\<open>xyz\<close> is the identifier of no document, and a
  reorder request that names it is answered with 500 by both versions, nothing written.
\<close>

theorem reorder_malformed_id_counterexample:
  "reorder_handler None (Some [id_B, ''xyz'', id_A]) store_AB =
     (Response 500 (Message ''Server error''), store_AB) \<and>
   reorder_handler_v2 None (Some [id_B, ''xyz'', id_A]) store_AB =
     (Response 500 (MessageError ''Failed to reorder recipes'' (BSONError ''xyz'')), store_AB)"
  by (simp add: reorder_handler_def reorder_handler_v2_def Recipe_bulkWrite_strings_def
      bulkUpdates_def castObjectId_samples)

lemma reorder_well_formed:
  assumes "distinct (map recipe_id st)" and "map castObjectId ids = map Some cids"
  shows "\<exists>st1 st2 rs1 rs2.
      reorder_handler None (Some ids) st =
        (Response 200 (Message ''Recipes reordered successfully''), st1) \<and>
      reorder_handler_v2 None (Some ids) st =
        (Response 200 (Message ''Recipes reordered successfully''), st1) \<and>
      reorder_handler None (Some (filter (known st) ids)) st =
        (Response 200 (Message ''Recipes reordered successfully''), st2) \<and>
      list_handler None st1 = Response 200 (Recipes rs1) \<and>
      list_handler None st2 = Response 200 (Recipes rs2) \<and>
      map recipe_id (filter (\<lambda>r. recipe_id r \<in> set cids) rs1) =
        map recipe_id (filter (\<lambda>r. recipe_id r \<in> set cids) rs2) \<and>
      filter (\<lambda>r. recipe_id r \<notin> set cids) st1 = filter (\<lambda>r. recipe_id r \<notin> set cids) st"
proof -
  let ?present = "\<lambda>i. i \<in> recipe_id ` set st"
  let ?cids2 = "filter ?present cids"
  let ?st1 = "apply_ops (bulkUpdates cids) st"
  let ?st2 = "apply_ops (bulkUpdates ?cids2) st"
  have l1: "map recipe_id (filter (\<lambda>r. recipe_id r \<in> set cids) (sort_key position ?st1)) =
      filter ?present (remdups cids)"
    using assms(1) by (rule reorder_listing)
  have "set (map recipe_id ?st2) = set (map recipe_id st)"
    by (simp only: map_id_apply_ops)
  then have "filter (\<lambda>r. recipe_id r \<in> set cids) (sort_key position ?st2) =
      filter (\<lambda>r. recipe_id r \<in> set ?cids2) (sort_key position ?st2)"
    by (intro filter_cong) auto
  moreover have "map recipe_id (filter (\<lambda>r. recipe_id r \<in> set ?cids2) (sort_key position ?st2)) =
      filter ?present (remdups ?cids2)"
    using assms(1) by (rule reorder_listing)
  ultimately have l2:
    "map recipe_id (filter (\<lambda>r. recipe_id r \<in> set cids) (sort_key position ?st2)) =
      filter ?present (remdups cids)"
    by (simp add: remdups_filter)
  have others: "filter (\<lambda>r. recipe_id r \<notin> set cids) ?st1 =
      filter (\<lambda>r. recipe_id r \<notin> set cids) st"
    by (rule filter_apply_ops_other) (simp add: filter_id_bulkUpdates)
  show ?thesis
    using reorder_handler_ok [OF assms(2), of st]
      reorder_handler_ok(1) [OF known_filter [OF assms(2), of st], of st] l1 l2 others
    by (simp add: list_handler_def Recipe_find_sort_def)
qed

text \<open>
  C5, amended. Let the store work. When every string of \<open>orderedIds\<close> is a well-formed
  \<^verbatim>\<open>ObjectId\<close>, of a document of the collection or not, both versions answer with 200
  and leave the same collection; a list request returns the documents that the request
  names in the same order as after the request without the unknown identifiers; and the
  documents that the request does not name are untouched. When some string of
  \<open>orderedIds\<close> is not a well-formed \<^verbatim>\<open>ObjectId\<close>, both versions answer with 500 and
  write nothing.
\<close>

theorem reorder_unknown_ids:
  assumes "distinct (map recipe_id st)"
  shows "(map castObjectId ids = map Some cids \<longrightarrow>
      (\<exists>st1 st2 rs1 rs2.
        reorder_handler None (Some ids) st =
          (Response 200 (Message ''Recipes reordered successfully''), st1) \<and>
        reorder_handler_v2 None (Some ids) st =
          (Response 200 (Message ''Recipes reordered successfully''), st1) \<and>
        reorder_handler None (Some (filter (known st) ids)) st =
          (Response 200 (Message ''Recipes reordered successfully''), st2) \<and>
        list_handler None st1 = Response 200 (Recipes rs1) \<and>
        list_handler None st2 = Response 200 (Recipes rs2) \<and>
        map recipe_id (filter (\<lambda>r. recipe_id r \<in> set cids) rs1) =
          map recipe_id (filter (\<lambda>r. recipe_id r \<in> set cids) rs2) \<and>
        filter (\<lambda>r. recipe_id r \<notin> set cids) st1 =
          filter (\<lambda>r. recipe_id r \<notin> set cids) st)) \<and>
    (None \<in> set (map castObjectId ids) \<longrightarrow>
      reorder_handler None (Some ids) st = (Response 500 (Message ''Server error''), st) \<and>
      (\<exists>e. reorder_handler_v2 None (Some ids) st =
         (Response 500 (MessageError ''Failed to reorder recipes'' e), st)))"
  using reorder_well_formed [OF assms] reorder_handler_malformed [of ids None st]
  by (intro conjI impI)

theorem reorder_unknown_ids_witness:
  "(\<exists>st1 st2 rs1 rs2.
      reorder_handler None (Some [id_B, id_D, id_A]) store_AB =
        (Response 200 (Message ''Recipes reordered successfully''), st1) \<and>
      reorder_handler None (Some [id_B, id_A]) store_AB =
        (Response 200 (Message ''Recipes reordered successfully''), st2) \<and>
      list_handler None st1 = Response 200 (Recipes rs1) \<and>
      list_handler None st2 = Response 200 (Recipes rs2) \<and>
      map recipe_id (filter (\<lambda>r. recipe_id r \<in> set [id_B, id_D, id_A]) rs1) =
        map recipe_id (filter (\<lambda>r. recipe_id r \<in> set [id_B, id_D, id_A]) rs2)) \<and>
   reorder_handler None (Some [id_B, ''xyz'', id_A]) store_AB =
     (Response 500 (Message ''Server error''), store_AB)"
proof
  have 1: "distinct (map recipe_id store_AB)"
    by (simp add: store_AB_def sample_recipe_def sample_ids_distinct)
  have 2: "map castObjectId [id_B, id_D, id_A] = map Some [id_B, id_D, id_A]"
    by (simp add: castObjectId_samples)
  have 3: "filter (known store_AB) [id_B, id_D, id_A] = [id_B, id_A]"
    by (simp add: known_def castObjectId_samples store_AB_def sample_recipe_def
        sample_ids_distinct)
  have 4: "None \<in> set (map castObjectId [id_B, ''xyz'', id_A])"
    by (simp add: castObjectId_samples)
  from reorder_unknown_ids [OF 1, THEN conjunct1, rule_format, OF 2]
  obtain st1 st2 rs1 rs2 where
    h: "reorder_handler None (Some [id_B, id_D, id_A]) store_AB =
        (Response 200 (Message ''Recipes reordered successfully''), st1) \<and>
      reorder_handler_v2 None (Some [id_B, id_D, id_A]) store_AB =
        (Response 200 (Message ''Recipes reordered successfully''), st1) \<and>
      reorder_handler None (Some (filter (known store_AB) [id_B, id_D, id_A])) store_AB =
        (Response 200 (Message ''Recipes reordered successfully''), st2) \<and>
      list_handler None st1 = Response 200 (Recipes rs1) \<and>
      list_handler None st2 = Response 200 (Recipes rs2) \<and>
      map recipe_id (filter (\<lambda>r. recipe_id r \<in> set [id_B, id_D, id_A]) rs1) =
        map recipe_id (filter (\<lambda>r. recipe_id r \<in> set [id_B, id_D, id_A]) rs2) \<and>
      filter (\<lambda>r. recipe_id r \<notin> set [id_B, id_D, id_A]) st1 =
        filter (\<lambda>r. recipe_id r \<notin> set [id_B, id_D, id_A]) store_AB"
    by (elim exE)
  note c = h [unfolded 3]
  from c [THEN conjunct1] c [THEN conjunct2, THEN conjunct2, THEN conjunct1]
    c [THEN conjunct2, THEN conjunct2, THEN conjunct2, THEN conjunct1]
    c [THEN conjunct2, THEN conjunct2, THEN conjunct2, THEN conjunct2, THEN conjunct1]
    c [THEN conjunct2, THEN conjunct2, THEN conjunct2, THEN conjunct2, THEN conjunct2,
       THEN conjunct1]
  show "\<exists>st1 st2 rs1 rs2.
      reorder_handler None (Some [id_B, id_D, id_A]) store_AB =
        (Response 200 (Message ''Recipes reordered successfully''), st1) \<and>
      reorder_handler None (Some [id_B, id_A]) store_AB =
        (Response 200 (Message ''Recipes reordered successfully''), st2) \<and>
      list_handler None st1 = Response 200 (Recipes rs1) \<and>
      list_handler None st2 = Response 200 (Recipes rs2) \<and>
      map recipe_id (filter (\<lambda>r. recipe_id r \<in> set [id_B, id_D, id_A]) rs1) =
        map recipe_id (filter (\<lambda>r. recipe_id r \<in> set [id_B, id_D, id_A]) rs2)"
    by (intro exI conjI)
  from reorder_unknown_ids [OF 1, THEN conjunct2, rule_format, OF 4]
  show "reorder_handler None (Some [id_B, ''xyz'', id_A]) store_AB =
     (Response 500 (Message ''Server error''), store_AB)"
    by (rule conjunct1)
qed

end
